theory Spec2Isabelle
  imports Main "HOL-Library.Sublist" "HOL-Library.AList"
begin

section \<open>Values shared by the provider code\<close>

text \<open>
  JavaScript strings are modelled as \<^typ>\<open>string\<close>: one \<^typ>\<open>char\<close> per code unit,
  restricted to the code units below 256. Decoded JSON is a tree; numbers are the
  integers (token counts and the literals of the examples are integers).
\<close>

datatype json =
    JNull
  | JBool bool
  | JNum int
  | JStr string
  | JArr "json list"
  | JObj "(string \<times> json) list"

text \<open>JavaScript truthiness of a decoded value (\<open>x || y\<close>, \<open>if (x)\<close>).\<close>

fun js_truthy :: "json \<Rightarrow> bool" where
  "js_truthy JNull = False"
| "js_truthy (JBool b) = b"
| "js_truthy (JNum n) = (n \<noteq> 0)"
| "js_truthy (JStr s) = (s \<noteq> [])"
| "js_truthy (JArr _) = True"
| "js_truthy (JObj _) = True"

text \<open>An optional string is truthy when it is present and not empty.\<close>

fun truthy_str :: "string option \<Rightarrow> bool" where
  "truthy_str None = False"
| "truthy_str (Some s) = (s \<noteq> [])"

text \<open>
  A number read from the backend's usage object: \<open>undefined\<close> when the field or the
  object is absent. \<open>js_add\<close> is the operator \<open>+\<close> on such values: an absent operand
  gives \<open>NaN\<close>. On numbers the model adds integers, which is what JavaScript
  computes while the operands and the sum are safe integers (magnitude below \<open>2 ^ 53\<close>).
\<close>

datatype jsnumber = Undefined | Num int | NaN

fun js_add :: "jsnumber \<Rightarrow> jsnumber \<Rightarrow> jsnumber" where
  "js_add (Num a) (Num b) = Num (a + b)"
| "js_add _ _ = NaN"

record api_usage =
  input_tokens :: jsnumber
  output_tokens :: jsnumber

record usageMetadata =
  promptTokenCount :: jsnumber
  candidatesTokenCount :: jsnumber
  totalTokenCount :: jsnumber

record functionCall =
  fc_name :: string
  fc_args :: json

datatype part =
    TextPart "string option"
  | FunctionCallPart functionCall

record candidate =
  cand_role :: string
  cand_parts :: "part list"
  finishReason :: "string option"

text \<open>The object both entry points of the provider return or yield.\<close>

record provider_response =
  resp_text :: string
  candidates :: "candidate list"
  resp_usageMetadata :: "usageMetadata option"

text \<open>
  What the two entry points throw: \<open>Anthropic API error: status - body\<close> when the
  response is not ok, and \<open>No response body reader available\<close>.
\<close>

datatype provider_error =
    ApiError nat string
  | NoBodyReader

section \<open>Streaming reconstruction (anthropic.ts, generateContentStream)\<close>

text \<open>
  One decoded \<open>data:\<close> line of the event stream. Only the fields the loop reads are kept:
  \<open>parsed.type\<close>, \<open>parsed.delta?.text\<close>, \<open>parsed.delta?.partial_json\<close>,
  \<open>parsed.content_block?.type\<close>, \<open>parsed.content_block.name\<close> and \<open>parsed.usage\<close>.
\<close>

record sse_event =
  ev_type :: string
  delta_text :: "string option"
  delta_partial_json :: "string option"
  content_block_type :: "string option"
  content_block_name :: string
  ev_usage :: "api_usage option"

text \<open>\<open>currentToolCall\<close>: the name and the argument text accumulated so far.\<close>

record tool_call =
  tc_name :: string
  tc_input :: string

definition text_fragment :: "string \<Rightarrow> provider_response" where
  "text_fragment t =
     \<lparr>resp_text = t,
      candidates = [\<lparr>cand_role = ''model'', cand_parts = [TextPart (Some t)], finishReason = None\<rparr>],
      resp_usageMetadata = None\<rparr>"

definition call_fragment :: "string \<Rightarrow> json \<Rightarrow> provider_response" where
  "call_fragment n a =
     \<lparr>resp_text = [],
      candidates = [\<lparr>cand_role = ''model'',
                     cand_parts = [FunctionCallPart \<lparr>fc_name = n, fc_args = a\<rparr>],
                     finishReason = None\<rparr>],
      resp_usageMetadata = None\<rparr>"

definition stop_fragment :: "api_usage option \<Rightarrow> provider_response" where
  "stop_fragment u =
     \<lparr>resp_text = [],
      candidates = [\<lparr>cand_role = ''model'', cand_parts = [TextPart (Some [])],
                     finishReason = Some ''STOP''\<rparr>],
      resp_usageMetadata =
        (case u of
           None \<Rightarrow> None
         | Some us \<Rightarrow>
             Some \<lparr>promptTokenCount = input_tokens us,
                   candidatesTokenCount = output_tokens us,
                   totalTokenCount = js_add (input_tokens us) (output_tokens us)\<rparr>)\<rparr>"

text \<open>
  The body of the \<open>for (const line of lines)\<close> loop for one decoded event, in the order
  of its \<open>if\<close> / \<open>else if\<close> chain. \<open>json_parse\<close> stands for the platform's \<open>JSON.parse\<close>:
  \<open>None\<close> when it throws. The result is the new \<open>currentToolCall\<close> and what is yielded.
\<close>

definition stream_event ::
  "(string \<Rightarrow> json option) \<Rightarrow> tool_call option \<Rightarrow> sse_event \<Rightarrow>
     tool_call option \<times> provider_response list" where
  "stream_event json_parse cur ev =
     (if ev_type ev = ''content_block_delta'' \<and> truthy_str (delta_text ev) then
        (cur, [text_fragment (the (delta_text ev))])
      else if ev_type ev = ''content_block_start'' \<and> content_block_type ev = Some ''tool_use'' then
        (Some \<lparr>tc_name = content_block_name ev, tc_input = []\<rparr>, [])
      else if ev_type ev = ''content_block_delta'' \<and> truthy_str (delta_partial_json ev) then
        (case cur of
           None \<Rightarrow> (None, [])
         | Some tc \<Rightarrow> (Some (tc\<lparr>tc_input := tc_input tc @ the (delta_partial_json ev)\<rparr>), []))
      else if ev_type ev = ''content_block_stop'' \<and> cur \<noteq> None then
        (let tc = the cur;
             args = (case json_parse (tc_input tc) of None \<Rightarrow> JObj [] | Some v \<Rightarrow> v)
         in (None, [call_fragment (tc_name tc) args]))
      else if ev_type ev = ''message_stop'' then
        (cur, [stop_fragment (ev_usage ev)])
      else (cur, []))"

text \<open>The loop over the events of the stream, threading \<open>currentToolCall\<close>.\<close>

fun stream_events ::
  "(string \<Rightarrow> json option) \<Rightarrow> tool_call option \<Rightarrow> sse_event list \<Rightarrow>
     tool_call option \<times> provider_response list" where
  "stream_events json_parse cur [] = (cur, [])"
| "stream_events json_parse cur (ev # evs) =
     (let (cur', out) = stream_event json_parse cur ev;
          (cur'', outs) = stream_events json_parse cur' evs
      in (cur'', out @ outs))"

text \<open>
  The HTTP response as the generator sees it: the status, the error body, and the decoded
  events of the body (\<open>None\<close> when the response has no body reader).
\<close>

record http_stream_response =
  hs_ok :: bool
  hs_status :: nat
  hs_error_text :: string
  hs_events :: "sse_event list option"

definition generateContentStream ::
  "(string \<Rightarrow> json option) \<Rightarrow> http_stream_response \<Rightarrow> provider_error + provider_response list" where
  "generateContentStream json_parse r =
     (if \<not> hs_ok r then Inl (ApiError (hs_status r) (hs_error_text r))
      else case hs_events r of
             None \<Rightarrow> Inl NoBodyReader
           | Some evs \<Rightarrow> Inr (snd (stream_events json_parse None evs)))"

text \<open>The tool events and the final event of the wire format, as the backend sends them.\<close>

definition tool_block_start :: "string \<Rightarrow> sse_event" where
  "tool_block_start n =
     \<lparr>ev_type = ''content_block_start'', delta_text = None, delta_partial_json = None,
      content_block_type = Some ''tool_use'', content_block_name = n, ev_usage = None\<rparr>"

definition tool_argument_delta :: "string \<Rightarrow> sse_event" where
  "tool_argument_delta d =
     \<lparr>ev_type = ''content_block_delta'', delta_text = None, delta_partial_json = Some d,
      content_block_type = None, content_block_name = [], ev_usage = None\<rparr>"

definition tool_block_stop :: sse_event where
  "tool_block_stop =
     \<lparr>ev_type = ''content_block_stop'', delta_text = None, delta_partial_json = None,
      content_block_type = None, content_block_name = [], ev_usage = None\<rparr>"

definition message_stop :: "api_usage option \<Rightarrow> sse_event" where
  "message_stop u =
     \<lparr>ev_type = ''message_stop'', delta_text = None, delta_partial_json = None,
      content_block_type = None, content_block_name = [], ev_usage = u\<rparr>"

text \<open>The invocation parts of a sequence of yielded fragments, in order.\<close>

fun part_calls :: "part list \<Rightarrow> functionCall list" where
  "part_calls [] = []"
| "part_calls (TextPart _ # ps) = part_calls ps"
| "part_calls (FunctionCallPart fc # ps) = fc # part_calls ps"

definition response_calls :: "provider_response \<Rightarrow> functionCall list" where
  "response_calls r = concat (map (\<lambda>c. part_calls (cand_parts c)) (candidates r))"

definition invocation_fragments :: "provider_response list \<Rightarrow> provider_response list" where
  "invocation_fragments rs = filter (\<lambda>r. response_calls r \<noteq> []) rs"

text \<open>A decoder that knows one text, to run the example of the specification.\<close>

definition example_parse :: "string \<Rightarrow> json option" where
  \<open>example_parse s = (if s = ''{"a":1}'' then Some (JObj [(''a'', JNum 1)]) else None)\<close>

section \<open>Strings and the regular expressions of the tool-call parser\<close>

text \<open>
  \<open>s.indexOf(needle)\<close>: the offset of the first occurrence, \<open>None\<close> for \<open>-1\<close>.
\<close>

fun indexOf :: "string \<Rightarrow> string \<Rightarrow> nat option" where
  "indexOf [] needle = (if needle = [] then Some 0 else None)"
| "indexOf (c # cs) needle =
     (if prefix needle (c # cs) then Some 0 else map_option Suc (indexOf cs needle))"

definition str_includes :: "string \<Rightarrow> string \<Rightarrow> bool" where
  "str_includes s needle = (indexOf s needle \<noteq> None)"

text \<open>
  The class \<open>\s\<close> of a regular expression and the characters \<open>trim()\<close> strips, among
  the code units below 256: tab to carriage return, space, no-break space.
\<close>

definition js_space :: "char \<Rightarrow> bool" where
  "js_space c = (let n = (of_char c :: nat) in (9 \<le> n \<and> n \<le> 13) \<or> n = 32 \<or> n = 160)"

definition trim :: "string \<Rightarrow> string" where
  "trim s = rev (dropWhile js_space (rev (dropWhile js_space s)))"

text \<open>\<open>[a-zA-Z_]\<close>, and \<open>[a-zA-Z0-9_]\<close> (which is also \<open>\w\<close>).\<close>

definition ident_start :: "char \<Rightarrow> bool" where
  "ident_start c =
     (let n = (of_char c :: nat) in (97 \<le> n \<and> n \<le> 122) \<or> (65 \<le> n \<and> n \<le> 90) \<or> n = 95)"

definition word_char :: "char \<Rightarrow> bool" where
  "word_char c = (let n = (of_char c :: nat) in ident_start c \<or> (48 \<le> n \<and> n \<le> 57))"

definition strip_prefix :: "string \<Rightarrow> string \<Rightarrow> string option" where
  "strip_prefix p s = (if prefix p s then Some (drop (length p) s) else None)"

text \<open>\<open>text.substring(a, b)\<close> for \<open>a \<le> b\<close>, the only way the parser calls it.\<close>

definition substring :: "string \<Rightarrow> nat \<Rightarrow> nat \<Rightarrow> string" where
  "substring s a b = take (b - a) (drop a s)"

text \<open>
  A pattern \<open>OPEN[\s\S]*?CLOSE\<close> with literal \<open>OPEN\<close> and \<open>CLOSE\<close>, searched from the
  start of \<open>s\<close>. The leftmost match starts at the first occurrence of \<open>OPEN\<close>; the lazy
  \<open>[\s\S]*?\<close> stops at the first \<open>CLOSE\<close> behind it. When no \<open>CLOSE\<close> follows the first
  \<open>OPEN\<close>, none follows a later one, and there is no match at all. The result is the
  offset of the match and the length of the text between the two tags.
\<close>

definition match_block :: "string \<Rightarrow> string \<Rightarrow> string \<Rightarrow> (nat \<times> nat) option" where
  "match_block opn cls s =
     (case indexOf s opn of
        None \<Rightarrow> None
      | Some i \<Rightarrow>
          (case indexOf (drop (i + length opn) s) cls of
             None \<Rightarrow> None
           | Some j \<Rightarrow> Some (i, j)))"

definition block_end :: "string \<Rightarrow> string \<Rightarrow> nat \<times> nat \<Rightarrow> nat" where
  "block_end opn cls m = fst m + length opn + snd m + length cls"

definition block_inner :: "string \<Rightarrow> string \<Rightarrow> nat \<times> nat \<Rightarrow> string" where
  "block_inner opn s m = take (snd m) (drop (fst m + length opn) s)"

lemma indexOf_bound: "indexOf s n = Some i \<Longrightarrow> i + length n \<le> length s"
proof (induction s arbitrary: i)
  case Nil
  then show ?case by (simp split: if_splits)
next
  case (Cons c cs)
  show ?case
  proof (cases "prefix n (c # cs)")
    case True
    with Cons.prems show ?thesis by (auto dest: prefix_length_le)
  next
    case False
    with Cons.prems obtain k where "indexOf cs n = Some k" and "i = Suc k" by auto
    with Cons.IH [of k] show ?thesis by simp
  qed
qed

lemma match_block_shorter:
  assumes "match_block opn cls s = Some m" and "opn \<noteq> []"
  shows "length (drop (block_end opn cls m) s) < length s"
proof -
  from assms(1) obtain i where i: "indexOf s opn = Some i"
    by (auto simp: match_block_def split: option.splits)
  from indexOf_bound [OF i] assms(2) have "0 < length s" by (cases s) auto
  moreover have "0 < block_end opn cls m" using assms(2) by (simp add: block_end_def)
  ultimately show ?thesis by simp
qed

text \<open>
  \<open>text.replace(/<function_result>[\s\S]*?<\/function_result>/g, '')\<close>: every match is
  deleted, the search resuming behind the last one.
\<close>

function remove_function_results :: "string \<Rightarrow> string" where
  "remove_function_results s =
     (case match_block ''<function_result>'' ''</function_result>'' s of
        None \<Rightarrow> s
      | Some m \<Rightarrow>
          take (fst m) s @
          remove_function_results
            (drop (block_end ''<function_result>'' ''</function_result>'' m) s))"
  by pat_completeness auto
termination
  by (relation "measure length") (auto dest!: match_block_shorter)

declare remove_function_results.simps [simp del]

text \<open>
  The loop \<open>while ((tempMatch = functionCallsRegex.exec(text)) !== null)\<close>: the inner
  text of every \<open><function_calls>\<close> block, in order.
\<close>

function function_call_blocks :: "string \<Rightarrow> string list" where
  "function_call_blocks s =
     (case match_block ''<function_calls>'' ''</function_calls>'' s of
        None \<Rightarrow> []
      | Some m \<Rightarrow>
          block_inner ''<function_calls>'' s m #
          function_call_blocks (drop (block_end ''<function_calls>'' ''</function_calls>'' m) s))"
  by pat_completeness auto
termination
  by (relation "measure length") (auto dest!: match_block_shorter)

declare function_call_blocks.simps [simp del]

text \<open>
  The replacement text of \<open>String.prototype.replace\<close> is a template: \<open>$$\<close> is a dollar
  sign, \<open>$&\<close> the match, \<open>$\<close> followed by a backquote the text before the match, \<open>$'\<close>
  the text behind it. The pattern has no group, so \<open>$1\<close> and the like stay as they are.
\<close>

fun expand_replacement :: "string \<Rightarrow> string \<Rightarrow> string \<Rightarrow> string \<Rightarrow> string" where
  "expand_replacement (c # d # cs) matched pre post =
     (if c = CHR ''$'' \<and> d = CHR ''$'' then CHR ''$'' # expand_replacement cs matched pre post
      else if c = CHR ''$'' \<and> d = CHR ''&'' then matched @ expand_replacement cs matched pre post
      else if c = CHR ''$'' \<and> d = CHR 0x60 then pre @ expand_replacement cs matched pre post
      else if c = CHR ''$'' \<and> d = CHR 0x27 then post @ expand_replacement cs matched pre post
      else c # expand_replacement (d # cs) matched pre post)"
| "expand_replacement cs matched pre post = cs"

text \<open>
  \<open>processedText.replace(/<function_calls>[\s\S]*?<\/function_calls>/, block)\<close>: the
  first match only.
\<close>

definition replace_first_function_calls :: "string \<Rightarrow> string \<Rightarrow> string" where
  "replace_first_function_calls block s =
     (case match_block ''<function_calls>'' ''</function_calls>'' s of
        None \<Rightarrow> s
      | Some m \<Rightarrow>
          (let e = block_end ''<function_calls>'' ''</function_calls>'' m
           in take (fst m) s
              @ expand_replacement block (substring s (fst m) e) (take (fst m) s) (drop e s)
              @ drop e s))"

definition unwrap_function_calls :: "string \<Rightarrow> string" where
  "unwrap_function_calls s = fold replace_first_function_calls (function_call_blocks s) s"

text \<open>
  The head \<open><TAG\s+name="([^"]+)">\<close> at the start of \<open>s\<close>: the name and the rest of
  \<open>s\<close>. The greedy \<open>\s+\<close> and \<open>[^"]+\<close> each have one way to let the rest match.
\<close>

definition match_named_head :: "string \<Rightarrow> string \<Rightarrow> (string \<times> string) option" where
  \<open>match_named_head tag s =
     (case strip_prefix (CHR ''<'' # tag) s of
        None \<Rightarrow> None
      | Some r1 \<Rightarrow>
          if takeWhile js_space r1 = [] then None
          else
            (case strip_prefix ''name="'' (dropWhile js_space r1) of
               None \<Rightarrow> None
             | Some r3 \<Rightarrow>
                 if takeWhile (\<lambda>c. c \<noteq> CHR 0x22) r3 = [] then None
                 else
                   (case strip_prefix ''">'' (dropWhile (\<lambda>c. c \<noteq> CHR 0x22) r3) of
                      None \<Rightarrow> None
                    | Some r5 \<Rightarrow> Some (takeWhile (\<lambda>c. c \<noteq> CHR 0x22) r3, r5))))\<close>

text \<open>
  \<open>/<invoke\s+name="([^"]+)">([\s\S]*?)<\/invoke>/\<close> at the start of \<open>s\<close>: group 1,
  group 2 and the length of the match.
\<close>

definition match_invoke_at :: "string \<Rightarrow> (string \<times> string \<times> nat) option" where
  "match_invoke_at s =
     (case match_named_head ''invoke'' s of
        None \<Rightarrow> None
      | Some (nm, r) \<Rightarrow>
          (case indexOf r ''</invoke>'' of
             None \<Rightarrow> None
           | Some j \<Rightarrow> Some (nm, take j r, length s - length r + j + 9)))"

text \<open>
  \<open>/<([a-zA-Z_][a-zA-Z0-9_]*)>([\s\S]*?)<\/\1>/\<close> at the start of \<open>s\<close>: the tag is
  the longest identifier behind \<open><\<close> (a shorter one is not followed by \<open>>\<close>), the
  body runs to the first closing tag of that name.
\<close>

definition match_direct_at :: "string \<Rightarrow> (string \<times> string \<times> nat) option" where
  "match_direct_at s =
     (case s of
        [] \<Rightarrow> None
      | c # r1 \<Rightarrow>
          if c \<noteq> CHR ''<'' then None
          else if r1 = [] \<or> \<not> ident_start (hd r1) then None
          else
            (let nm = takeWhile word_char r1 in
             case strip_prefix ''>'' (dropWhile word_char r1) of
               None \<Rightarrow> None
             | Some r3 \<Rightarrow>
                 (case indexOf r3 (''</'' @ nm @ ''>'') of
                    None \<Rightarrow> None
                  | Some j \<Rightarrow> Some (nm, take j r3, 2 * length nm + j + 5))))"

text \<open>
  \<open>/<parameter\s+name="([^"]+)">([^<]*)<\/parameter>/\<close> and \<open>/<(\w+)>([^<]*)<\/\1>/\<close>
  at the start of \<open>s\<close>: name, value and length of the match.
\<close>

definition match_param_at :: "string \<Rightarrow> (string \<times> string \<times> nat) option" where
  "match_param_at s =
     (case match_named_head ''parameter'' s of
        None \<Rightarrow> None
      | Some (nm, r) \<Rightarrow>
          (let v = takeWhile (\<lambda>c. c \<noteq> CHR ''<'') r in
           if prefix ''</parameter>'' (dropWhile (\<lambda>c. c \<noteq> CHR ''<'') r)
           then Some (nm, v, length s - length r + length v + 12)
           else None))"

definition match_direct_param_at :: "string \<Rightarrow> (string \<times> string \<times> nat) option" where
  "match_direct_param_at s =
     (case s of
        [] \<Rightarrow> None
      | c # r1 \<Rightarrow>
          if c \<noteq> CHR ''<'' then None
          else
            (let nm = takeWhile word_char r1 in
             if nm = [] then None
             else
               (case strip_prefix ''>'' (dropWhile word_char r1) of
                  None \<Rightarrow> None
                | Some r3 \<Rightarrow>
                    (let v = takeWhile (\<lambda>c. c \<noteq> CHR ''<'') r3 in
                     if prefix (''</'' @ nm @ ''>'') (dropWhile (\<lambda>c. c \<noteq> CHR ''<'') r3)
                     then Some (nm, v, 2 * length nm + length v + 5)
                     else None))))"

section \<open>The tool-call parser (parseAnthropicToolCalls)\<close>

text \<open>An entry of \<open>toolCalls\<close>: \<open>{name, params, start, end}\<close>.\<close>

record toolCall =
  call_name :: string
  call_params :: string
  call_start :: nat
  call_end :: nat

lemma match_invoke_at_pos: "match_invoke_at s = Some (nm, ps, len) \<Longrightarrow> 0 < len"
  by (auto simp: match_invoke_at_def split: option.splits)

lemma match_direct_at_pos: "match_direct_at s = Some (nm, ps, len) \<Longrightarrow> 0 < len"
  by (auto simp: match_direct_at_def Let_def split: option.splits list.splits if_splits)

lemma match_param_at_pos: "match_param_at s = Some (nm, ps, len) \<Longrightarrow> 0 < len"
  by (auto simp: match_param_at_def Let_def split: option.splits if_splits)

lemma match_direct_param_at_pos: "match_direct_param_at s = Some (nm, ps, len) \<Longrightarrow> 0 < len"
  by (auto simp: match_direct_param_at_def Let_def split: option.splits list.splits if_splits)

text \<open>
  The loop \<open>while ((match = invokeRegex.exec(text)) !== null)\<close>. \<open>off\<close> is the offset
  of the remaining text \<open>s\<close>, that is \<open>lastIndex\<close>; the search tries every offset from
  there on and resumes behind a match.
\<close>

function scan_invoke :: "nat \<Rightarrow> string \<Rightarrow> toolCall list" where
  "scan_invoke off [] = []"
| "scan_invoke off (c # cs) =
     (case match_invoke_at (c # cs) of
        None \<Rightarrow> scan_invoke (Suc off) cs
      | Some (nm, ps, len) \<Rightarrow>
          \<lparr>call_name = nm, call_params = ps, call_start = off, call_end = off + len\<rparr>
          # scan_invoke (off + len) (drop len (c # cs)))"
  by pat_completeness auto
termination
  by (relation "measure (\<lambda>(off, s). length s)") (auto dest!: match_invoke_at_pos)

text \<open>
  The test \<open>toolCalls.some(tc => ...)\<close> of the second loop, for a match from
  \<open>matchStart\<close> to \<open>matchEnd\<close>.
\<close>

definition overlaps :: "toolCall list \<Rightarrow> nat \<Rightarrow> nat \<Rightarrow> bool" where
  "overlaps tcs matchStart matchEnd =
     list_ex (\<lambda>tc. (matchStart \<ge> call_start tc \<and> matchStart < call_end tc) \<or>
                   (matchEnd > call_start tc \<and> matchEnd \<le> call_end tc)) tcs"

text \<open>
  The loop \<open>while ((match = directToolRegex.exec(text)) !== null)\<close>, pushing onto the
  \<open>toolCalls\<close> the first loop has filled. A match that is skipped moves \<open>lastIndex\<close>
  behind itself all the same.
\<close>

function scan_direct :: "nat \<Rightarrow> string \<Rightarrow> toolCall list \<Rightarrow> toolCall list" where
  "scan_direct off [] tcs = tcs"
| "scan_direct off (c # cs) tcs =
     (case match_direct_at (c # cs) of
        None \<Rightarrow> scan_direct (Suc off) cs tcs
      | Some (nm, ps, len) \<Rightarrow>
          scan_direct (off + len) (drop len (c # cs))
            (if \<not> overlaps tcs off (off + len)
             then tcs @ [\<lparr>call_name = nm, call_params = ps, call_start = off, call_end = off + len\<rparr>]
             else tcs))"
  by pat_completeness auto
termination
  by (relation "measure (\<lambda>(off, s, tcs). length s)") (auto dest!: match_direct_at_pos)

text \<open>The two loops over a parameter block: the names and raw values matched, in order.\<close>

function scan_params :: "string \<Rightarrow> (string \<times> string) list" where
  "scan_params [] = []"
| "scan_params (c # cs) =
     (case match_param_at (c # cs) of
        None \<Rightarrow> scan_params cs
      | Some (nm, v, len) \<Rightarrow> (nm, v) # scan_params (drop len (c # cs)))"
  by pat_completeness auto
termination
  by (relation "measure length") (auto dest!: match_param_at_pos)

function scan_direct_params :: "string \<Rightarrow> (string \<times> string) list" where
  "scan_direct_params [] = []"
| "scan_direct_params (c # cs) =
     (case match_direct_param_at (c # cs) of
        None \<Rightarrow> scan_direct_params cs
      | Some (nm, v, len) \<Rightarrow> (nm, v) # scan_direct_params (drop len (c # cs)))"
  by pat_completeness auto
termination
  by (relation "measure length") (auto dest!: match_direct_param_at_pos)

text \<open>
  The value stored for a parameter: the trimmed text, decoded when it starts with
  \<open>[\<close> or \<open>{\<close> and decodes.
\<close>

definition param_value :: "(string \<Rightarrow> json option) \<Rightarrow> string \<Rightarrow> json" where
  "param_value json_parse raw =
     (let v = trim raw in
      if prefix ''['' v \<or> prefix ''{'' v
      then (case json_parse v of None \<Rightarrow> JStr v | Some j \<Rightarrow> j)
      else JStr v)"

text \<open>
  \<open>args[paramName] = value\<close> on a plain object, kept as an association list in
  insertion order. Assigning to \<open>__proto__\<close> creates no property. (The order in which
  JavaScript lists keys that look like array indices is not modelled.)
\<close>

definition set_arg :: "string \<Rightarrow> json \<Rightarrow> (string \<times> json) list \<Rightarrow> (string \<times> json) list" where
  "set_arg k v args = (if k = ''__proto__'' then args else AList.update k v args)"

definition parse_params :: "(string \<Rightarrow> json option) \<Rightarrow> string \<Rightarrow> (string \<times> json) list" where
  "parse_params json_parse paramBlock =
     (let named = scan_params paramBlock;
          store = (\<lambda>(k, raw). set_arg k (param_value json_parse raw))
      in if named \<noteq> [] then fold store named []
         else fold store (scan_direct_params paramBlock) [])"

definition has_key :: "string \<Rightarrow> (string \<times> json) list \<Rightarrow> bool" where
  "has_key k args = (map_of args k \<noteq> None)"

text \<open>\<open>mappedArgs[to] = mappedArgs[from]; delete mappedArgs[from]\<close>.\<close>

definition move_key :: "string \<Rightarrow> string \<Rightarrow> (string \<times> json) list \<Rightarrow> (string \<times> json) list" where
  "move_key from to args = AList.delete from (AList.update to (the (map_of args from)) args)"

definition map_args :: "string \<Rightarrow> (string \<times> json) list \<Rightarrow> (string \<times> json) list" where
  "map_args toolName args =
     (let a1 = (if toolName = ''read_file'' \<and> has_key ''path'' args \<and> \<not> has_key ''absolute_path'' args
                then move_key ''path'' ''absolute_path'' args else args);
          a2 = (if toolName = ''run_shell_command'' \<and> has_key ''cmd'' a1 \<and> \<not> has_key ''command'' a1
                then move_key ''cmd'' ''command'' a1 else a1);
          a3 = (if toolName = ''ls'' then
                  (if has_key ''directory'' a2 \<and> \<not> has_key ''path'' a2
                   then move_key ''directory'' ''path'' a2
                   else if has_key ''dir'' a2 \<and> \<not> has_key ''path'' a2
                   then move_key ''dir'' ''path'' a2
                   else a2)
                else a2);
          a4 = (if toolName = ''write_file'' \<and> has_key ''content'' a3 \<and> \<not> has_key ''contents'' a3
                then move_key ''content'' ''contents'' a3 else a3);
          a5 = (if toolName = ''write_file'' \<and> has_key ''path'' a4 \<and> \<not> has_key ''absolute_path'' a4
                then move_key ''path'' ''absolute_path'' a4 else a4)
      in a5)"

definition to_function_call :: "(string \<Rightarrow> json option) \<Rightarrow> toolCall \<Rightarrow> functionCall" where
  "to_function_call json_parse tc =
     \<lparr>fc_name = call_name tc,
      fc_args = JObj (map_args (call_name tc) (parse_params json_parse (call_params tc)))\<rparr>"

text \<open>
  The loop \<open>for (const toolCall of toolCalls)\<close>, threading \<open>lastIndex\<close>, \<open>textParts\<close>
  and \<open>functionCalls\<close>.
\<close>

fun emit_calls ::
  "(string \<Rightarrow> json option) \<Rightarrow> string \<Rightarrow> toolCall list \<Rightarrow> nat \<Rightarrow> string list \<Rightarrow> functionCall list \<Rightarrow>
     nat \<times> string list \<times> functionCall list" where
  "emit_calls json_parse txt [] lastIndex tps fcs = (lastIndex, tps, fcs)"
| "emit_calls json_parse txt (tc # tcs) lastIndex tps fcs =
     (let textBefore = trim (substring txt lastIndex (call_start tc));
          tps' = (if call_start tc > lastIndex \<and> textBefore \<noteq> [] then tps @ [textBefore] else tps)
      in emit_calls json_parse txt tcs (call_end tc) tps' (fcs @ [to_function_call json_parse tc]))"

text \<open>The text the scans run on: fabricated results removed, call wrappers unwrapped.\<close>

definition prepare_text :: "string \<Rightarrow> string" where
  "prepare_text text0 =
     (let text1 = remove_function_results text0
      in if function_call_blocks text1 \<noteq> [] then unwrap_function_calls text1 else text1)"

text \<open>\<open>toolCalls\<close> after both loops, and after \<open>toolCalls.sort((a, b) => a.start - b.start)\<close>.\<close>

definition accepted_calls :: "string \<Rightarrow> toolCall list" where
  "accepted_calls txt = scan_direct 0 txt (scan_invoke 0 txt)"

definition sorted_calls :: "string \<Rightarrow> toolCall list" where
  "sorted_calls txt = sort_key call_start (accepted_calls txt)"

record parse_result =
  textParts :: "string list"
  functionCalls :: "functionCall list"

definition parseAnthropicToolCalls :: "(string \<Rightarrow> json option) \<Rightarrow> string \<Rightarrow> parse_result" where
  "parseAnthropicToolCalls json_parse text0 =
     (let txt = prepare_text text0;
          (lastIndex, tps, fcs) = emit_calls json_parse txt (sorted_calls txt) 0 [] [];
          textAfter = trim (drop lastIndex txt);
          tps' = (if lastIndex < length txt \<and> textAfter \<noteq> [] then tps @ [textAfter] else tps)
      in if fcs = [] then \<lparr>textParts = [txt], functionCalls = []\<rparr>
         else \<lparr>textParts = tps', functionCalls = fcs\<rparr>)"



section \<open>The synchronous call (anthropic.ts, generateContent)\<close>

text \<open>
  The decoded response body \<open>data\<close>. \<open>data.content\<close> is an array of blocks, or
  something else, of which the code reads \<open>data.content?.[0]?.text\<close> only.
\<close>

record content_block =
  cb_type :: string
  cb_text :: "string option"
  cb_name :: string
  cb_input :: "json option"

datatype content_field =
    ContentArray "content_block list"
  | ContentOther "string option"

record api_data =
  content :: content_field
  stop_reason :: "string option"
  usage :: "api_usage option"

record http_response =
  hr_ok :: bool
  hr_status :: nat
  hr_error_text :: string
  hr_data :: api_data

text \<open>One round of \<open>for (const contentBlock of data.content)\<close> on \<open>(parts, text, functionCalls)\<close>.\<close>

definition content_block_step ::
  "part list \<times> string \<times> functionCall list \<Rightarrow> content_block \<Rightarrow> part list \<times> string \<times> functionCall list" where
  "content_block_step st cb =
     (case st of (parts, txt, fcs) \<Rightarrow>
        if cb_type cb = ''text'' then
          (parts @ [TextPart (cb_text cb)],
           txt @ (if truthy_str (cb_text cb) then the (cb_text cb) else []),
           fcs)
        else if cb_type cb = ''tool_use'' then
          (let fc = \<lparr>fc_name = cb_name cb,
                     fc_args = (case cb_input cb of
                                  None \<Rightarrow> JObj []
                                | Some v \<Rightarrow> if js_truthy v then v else JObj [])\<rparr>
           in (parts @ [FunctionCallPart fc], txt, fcs @ [fc]))
        else (parts, txt, fcs))"

text \<open>The part list, the text and the calls, up to the debug logging.\<close>

definition response_parts ::
  "(string \<Rightarrow> json option) \<Rightarrow> content_field \<Rightarrow> part list \<times> string \<times> functionCall list" where
  "response_parts json_parse c =
     (case c of
        ContentArray blocks \<Rightarrow> foldl content_block_step ([], [], []) blocks
      | ContentOther t \<Rightarrow>
          (let txt = (if truthy_str t then the t else []);
               parsed = parseAnthropicToolCalls json_parse txt;
               fcs = functionCalls parsed;
               parts = map FunctionCallPart fcs
           in (if txt \<noteq> [] \<and> fcs = [] then parts @ [TextPart (Some txt)] else parts, txt, fcs)))"

definition generateContent ::
  "(string \<Rightarrow> json option) \<Rightarrow> http_response \<Rightarrow> provider_error + provider_response" where
  "generateContent json_parse r =
     (if \<not> hr_ok r then Inl (ApiError (hr_status r) (hr_error_text r))
      else
        (let d = hr_data r;
             (parts0, txt, fcs) = response_parts json_parse (content d);
             parts = (if parts0 = [] \<and> txt \<noteq> [] then [TextPart (Some txt)] else parts0);
             itok = (case usage d of None \<Rightarrow> Undefined | Some u \<Rightarrow> input_tokens u);
             otok = (case usage d of None \<Rightarrow> Undefined | Some u \<Rightarrow> output_tokens u)
         in Inr \<lparr>resp_text = txt,
                 candidates =
                   [\<lparr>cand_role = ''model'', cand_parts = parts,
                     finishReason = (if stop_reason d = Some ''end_turn'' then Some ''STOP''
                                     else stop_reason d)\<rparr>],
                 resp_usageMetadata =
                   Some \<lparr>promptTokenCount = itok, candidatesTokenCount = otok,
                         totalTokenCount = js_add itok otok\<rparr>\<rparr>))"

section \<open>The provider router (factory.ts, detectProvider)\<close>

text \<open>
  \<open>process.env\<close> is a map from names to values. A variable is truthy when it is set
  to a text that is not empty.
\<close>

type_synonym env = "string \<rightharpoonup> string"

definition env_truthy :: "env \<Rightarrow> string \<Rightarrow> bool" where
  "env_truthy e k = truthy_str (e k)"














section \<open>The persistent Aider service (aider-service.ts)\<close>

record Config =
  targetDir :: string

text \<open>
  A queued command. \<open>cmd_ref\<close> is the identity of the object; \<open>is_map\<close> tells whose
  \<open>resolve\<close> and \<open>reject\<close> it carries: those of the promise \<open>execute\<close> returns, or the
  closures \<open>updateRepoMap\<close> builds.
\<close>

record AiderCommand =
  cmd_ref :: nat
  cmd_id :: string
  instruction :: string
  files :: "string list option"
  is_map :: bool

text \<open>A call of a command's \<open>resolve\<close> or \<open>reject\<close>, with its argument.\<close>

datatype settlement =
    ResolveCalled nat string
  | RejectCalled nat string

record spawn_options =
  sp_args :: "string list"
  sp_cwd :: string

text \<open>
  The fields of the class, and what surrounds it: the lines written to the input of
  the subprocess, the processes spawned, the timers armed and not yet fired (each with
  the command that was dispatched when it was armed, oldest first), the calls of
  \<open>resolve\<close> and \<open>reject\<close> made so far, the clock \<open>Date.now()\<close> reads and the
  next fresh object identity.
\<close>

record AiderService =
  config :: Config
  aiderProcess :: bool
  commandQueue :: "AiderCommand list"
  currentCommand :: "AiderCommand option"
  outputBuffer :: string
  repoMapCache :: "string option"
  lastRepoMapTime :: nat
  stdin_written :: "string list"
  spawned :: "spawn_options list"
  timers :: "nat list"
  settled :: "settlement list"
  clock :: nat
  next_ref :: nat

definition new_AiderService :: "Config \<Rightarrow> AiderService" where
  "new_AiderService cfg =
     \<lparr>config = cfg, aiderProcess = False, commandQueue = [], currentCommand = None,
      outputBuffer = [], repoMapCache = None, lastRepoMapTime = 0, stdin_written = [],
      spawned = [], timers = [], settled = [], clock = 0, next_ref = 0\<rparr>"

text \<open>The first statements of \<open>start()\<close>, up to the \<open>spawn\<close>.\<close>

definition start_spawn :: "env \<Rightarrow> AiderService \<Rightarrow> AiderService" where
  "start_spawn e s =
     (if aiderProcess s then s
      else
        (let args = [''--no-auto-commit'', ''--yes'', ''--cache-prompts'', ''--map-tokens'', ''2048'',
                     ''--no-pretty'']
               @ (if env_truthy e ''ANTHROPIC_AUTH_TOKEN''
                  then [''--model'', ''anthropic/claude-3-opus-20240229'', ''--api-base'',
                        (if env_truthy e ''ANTHROPIC_BASE_URL'' then the (e ''ANTHROPIC_BASE_URL'') else [])]
                  else if env_truthy e ''GEMINI_API_KEY''
                  then [''--model'', ''gemini/gemini-1.5-pro-latest'']
                  else [])
         in s\<lparr>aiderProcess := True,
               spawned := spawned s @ [\<lparr>sp_args = args, sp_cwd = targetDir (config s)\<rparr>]\<rparr>))"

text \<open>
  \<open>cleanOutput\<close>. First \<open>/\x1b\[[0-9;]*m/g\<close>: an escape sequence is deleted where the
  digits and semicolons behind \<open>ESC [\<close> end in \<open>m\<close>.
\<close>

definition ansi_param :: "char \<Rightarrow> bool" where
  "ansi_param c = (let n = (of_char c :: nat) in (48 \<le> n \<and> n \<le> 57) \<or> n = 59)"

function strip_ansi :: "string \<Rightarrow> string" where
  "strip_ansi [] = []"
| "strip_ansi (c # cs) =
     (if c = CHR 0x1B \<and> prefix ''['' cs \<and> prefix ''m'' (dropWhile ansi_param (tl cs))
      then strip_ansi (tl (dropWhile ansi_param (tl cs)))
      else c # strip_ansi cs)"
  by pat_completeness auto
termination
proof (relation "measure length")
  fix c :: char and cs :: string
  assume "c = CHR 0x1B \<and> prefix ''['' cs \<and> prefix ''m'' (dropWhile ansi_param (tl cs))"
  have "length (tl (dropWhile ansi_param (tl cs))) \<le> length cs"
    using length_dropWhile_le [of ansi_param "tl cs"] by simp
  then show "(tl (dropWhile ansi_param (tl cs)), c # cs) \<in> measure length" by simp
qed simp_all

text \<open>
  The line terminators of a regular expression among the code units below 256, for
  \<open>^\<close>, \<open>$\<close> and \<open>.\<close> under the flag \<open>m\<close>.
\<close>

definition line_terminator :: "char \<Rightarrow> bool" where
  "line_terminator c = (c = CHR 0x0A \<or> c = CHR 0x0D)"

text \<open>
  \<open>/^> /gm\<close> and \<open>/^Tokens:.*$/gm\<close>, each replaced by nothing. \<open>bol\<close> tells whether
  the text starts a line.
\<close>

fun strip_prompts :: "bool \<Rightarrow> string \<Rightarrow> string" where
  "strip_prompts bol [] = []"
| "strip_prompts bol [c] = [c]"
| "strip_prompts bol (c # d # cs) =
     (if bol \<and> c = CHR ''>'' \<and> d = CHR '' '' then strip_prompts False cs
      else c # strip_prompts (line_terminator c) (d # cs))"

function strip_token_lines :: "bool \<Rightarrow> string \<Rightarrow> string" where
  "strip_token_lines bol [] = []"
| "strip_token_lines bol (c # cs) =
     (if bol \<and> prefix ''Tokens:'' (c # cs)
      then strip_token_lines False (dropWhile (\<lambda>x. \<not> line_terminator x) (c # cs))
      else c # strip_token_lines (line_terminator c) cs)"
  by pat_completeness auto
termination
proof (relation "measure (\<lambda>(bol, s). 2 * length s + (if bol then 1 else 0))")
  fix bol :: bool and c :: char and cs :: string
  assume "bol \<and> prefix ''Tokens:'' (c # cs)"
  then have "bol" by simp
  moreover have "length (dropWhile (\<lambda>x. \<not> line_terminator x) (c # cs)) \<le> length (c # cs)"
    by (rule length_dropWhile_le)
  ultimately show "((False, dropWhile (\<lambda>x. \<not> line_terminator x) (c # cs)), (bol, c # cs))
      \<in> measure (\<lambda>(bol, s). 2 * length s + (if bol then 1 else 0))"
    by simp
qed simp_all

definition cleanOutput :: "string \<Rightarrow> string" where
  "cleanOutput output = trim (strip_token_lines True (strip_prompts True (strip_ansi output)))"

text \<open>
  Calling the \<open>resolve\<close> of a command: the promise of \<open>execute\<close> is fulfilled, or,
  for the repo map command, the cache and its time stamp are set. Calling its \<open>reject\<close>
  changes no field (the repo map command's \<open>reject\<close> only lets \<open>updateRepoMap\<close> return).
\<close>

definition call_resolve :: "AiderCommand \<Rightarrow> string \<Rightarrow> AiderService \<Rightarrow> AiderService" where
  "call_resolve c result s =
     (let s1 = s\<lparr>settled := settled s @ [ResolveCalled (cmd_ref c) result]\<rparr>
      in if is_map c then s1\<lparr>repoMapCache := Some result, lastRepoMapTime := clock s\<rparr> else s1)"

definition call_reject :: "AiderCommand \<Rightarrow> string \<Rightarrow> AiderService \<Rightarrow> AiderService" where
  "call_reject c err s = s\<lparr>settled := settled s @ [RejectCalled (cmd_ref c) err]\<rparr>"

text \<open>
  \<open>processNextCommand\<close>. The writes go through \<open>this.aiderProcess?.stdin?.write\<close>, so
  nothing is written when there is no process. \<open>setTimeout\<close> arms one more timer.
\<close>

definition processNextCommand :: "AiderService \<Rightarrow> AiderService" where
  "processNextCommand s =
     (case commandQueue s of
        [] \<Rightarrow> s
      | c # rest \<Rightarrow>
          if currentCommand s \<noteq> None then s
          else
            (let adds = (case files c of
                           None \<Rightarrow> []
                         | Some fs \<Rightarrow> map (\<lambda>f. ''/add '' @ f @ [CHR 0x0A]) fs);
                 lines = adds @ [instruction c @ [CHR 0x0A]]
             in s\<lparr>currentCommand := Some c, commandQueue := rest, outputBuffer := [],
                   stdin_written := (if aiderProcess s then stdin_written s @ lines
                                     else stdin_written s),
                   timers := timers s @ [cmd_ref c]\<rparr>))"

definition completeCurrentCommand :: "AiderService \<Rightarrow> AiderService" where
  "completeCurrentCommand s =
     (case currentCommand s of
        None \<Rightarrow> s
      | Some c \<Rightarrow>
          processNextCommand
            ((call_resolve c (cleanOutput (outputBuffer s)) s)
               \<lparr>currentCommand := None, outputBuffer := []\<rparr>))"

definition handleOutput :: "string \<Rightarrow> AiderService \<Rightarrow> AiderService" where
  "handleOutput data s =
     (let s1 = s\<lparr>outputBuffer := outputBuffer s @ data\<rparr>
      in if str_includes (outputBuffer s1) ''> '' \<or> str_includes (outputBuffer s1) ''Tokens:''
            \<or> str_includes (outputBuffer s1) ''Applied edit to''
         then completeCurrentCommand s1 else s1)"

text \<open>
  The callback of the oldest timer, when its 30 seconds are over. Its test reads
  \<open>this.currentCommand?.id === this.currentCommand?.id\<close>: both sides are evaluated when
  the timer fires.
\<close>

definition timeout_fires :: "AiderService \<Rightarrow> AiderService" where
  "timeout_fires s =
     (case timers s of
        [] \<Rightarrow> s
      | t # ts \<Rightarrow>
          (let s1 = s\<lparr>timers := ts\<rparr>
           in if map_option cmd_id (currentCommand s1) = map_option cmd_id (currentCommand s1)
              then completeCurrentCommand s1 else s1))"

text \<open>The loop \<open>while (this.commandQueue.length > 0)\<close> of \<open>rejectAllPending\<close>.\<close>

function rejectQueued :: "string \<Rightarrow> AiderService \<Rightarrow> AiderService" where
  "rejectQueued err s =
     (case commandQueue s of
        [] \<Rightarrow> s
      | c # rest \<Rightarrow> rejectQueued err (call_reject c err (s\<lparr>commandQueue := rest\<rparr>)))"
  by pat_completeness auto
termination
  by (relation "measure (\<lambda>(err, s). length (commandQueue s))") (auto simp: call_reject_def)

declare rejectQueued.simps [simp del]

definition rejectAllPending :: "string \<Rightarrow> AiderService \<Rightarrow> AiderService" where
  "rejectAllPending err s =
     rejectQueued err
       (case currentCommand s of
          None \<Rightarrow> s
        | Some c \<Rightarrow> (call_reject c err s)\<lparr>currentCommand := None\<rparr>)"

text \<open>The handler of the subprocess's \<open>close\<close> event.\<close>

definition on_close :: "AiderService \<Rightarrow> AiderService" where
  "on_close s = rejectAllPending ''Aider process terminated'' (s\<lparr>aiderProcess := False\<rparr>)"

text \<open>
  The promise executor of \<open>execute\<close>, run once the process is up; \<open>rid\<close> is the random
  identifier. And the executor of \<open>updateRepoMap\<close>, which puts its command in front.
\<close>

definition execute_enqueue :: "string \<Rightarrow> string \<Rightarrow> string list option \<Rightarrow> AiderService \<Rightarrow> AiderService" where
  "execute_enqueue rid instr fs s =
     processNextCommand
       (s\<lparr>commandQueue := commandQueue s
              @ [\<lparr>cmd_ref = next_ref s, cmd_id = rid, instruction = instr, files = fs, is_map = False\<rparr>],
          next_ref := Suc (next_ref s)\<rparr>)"

definition updateRepoMap :: "AiderService \<Rightarrow> AiderService" where
  "updateRepoMap s =
     (if \<not> aiderProcess s then s
      else processNextCommand
             (s\<lparr>commandQueue := \<lparr>cmd_ref = next_ref s, cmd_id = ''repo-map'', instruction = ''/map'',
                                  files = None, is_map = True\<rparr> # commandQueue s,
                next_ref := Suc (next_ref s)\<rparr>))"

text \<open>What can happen to a running service, one callback at a time.\<close>

datatype event =
    Execute string string "string list option"
  | UpdateRepoMap
  | Stdout string
  | Timeout
  | Close
  | Tick nat

fun step :: "event \<Rightarrow> AiderService \<Rightarrow> AiderService" where
  "step (Execute rid instr fs) s = execute_enqueue rid instr fs s"
| "step UpdateRepoMap s = updateRepoMap s"
| "step (Stdout data) s = handleOutput data s"
| "step Timeout s = timeout_fires s"
| "step Close s = on_close s"
| "step (Tick n) s = s\<lparr>clock := clock s + n\<rparr>"

definition run :: "event list \<Rightarrow> AiderService \<Rightarrow> AiderService" where
  "run evs s = fold step evs s"

text \<open>The commands that wait for their outcome: the one in flight, then the queue.\<close>

definition pending :: "AiderService \<Rightarrow> AiderCommand list" where
  "pending s = (case currentCommand s of None \<Rightarrow> [] | Some c \<Rightarrow> [c]) @ commandQueue s"

text \<open>
  The command a call of \<open>resolve\<close> or \<open>reject\<close> settles. The identities in use are
  in order when no command is both settled and waiting, none waits or is settled twice,
  and all are older than the next fresh one.
\<close>

fun settled_ref :: "settlement \<Rightarrow> nat" where
  "settled_ref (ResolveCalled r x) = r"
| "settled_ref (RejectCalled r x) = r"

definition refs_ok :: "AiderService \<Rightarrow> bool" where
  "refs_ok s =
     (distinct (map settled_ref (settled s) @ map cmd_ref (pending s)) \<and>
      list_all (\<lambda>r. r < next_ref s) (map settled_ref (settled s) @ map cmd_ref (pending s)))"

text \<open>
  The module: the variable \<open>aiderService\<close> holds a reference into the store of the
  services constructed so far, or \<open>null\<close>; \<open>exit_listeners\<close> counts the handlers
  registered with \<open>process.on('exit', ...)\<close>.
\<close>

record module_state =
  aiderService :: "nat option"
  services :: "AiderService list"
  exit_listeners :: nat

definition initial_module :: module_state where
  "initial_module = \<lparr>aiderService = None, services = [], exit_listeners = 0\<rparr>"

definition getAiderService :: "Config \<Rightarrow> module_state \<Rightarrow> nat \<times> module_state" where
  "getAiderService cfg m =
     (case aiderService m of
        None \<Rightarrow>
          (length (services m),
           m\<lparr>aiderService := Some (length (services m)),
             services := services m @ [new_AiderService cfg],
             exit_listeners := Suc (exit_listeners m)\<rparr>)
      | Some r \<Rightarrow> (r, m))"

text \<open>A sequence of calls of \<open>getAiderService\<close>: the references returned, and the module.\<close>

fun getAiderService_calls :: "Config list \<Rightarrow> module_state \<Rightarrow> nat list \<times> module_state" where
  "getAiderService_calls [] m = ([], m)"
| "getAiderService_calls (cfg # cfgs) m =
     (let (r, m1) = getAiderService cfg m;
          (rs, m2) = getAiderService_calls cfgs m1
      in (r # rs, m2))"

section \<open>The explicit calls of a text, and the order asked of the parts\<close>















section \<open>Inputs of the examples\<close>




text \<open>A service whose subprocess is up and idle.\<close>

definition running_service :: AiderService where
  "running_service = (new_AiderService \<lparr>targetDir = ''/repo''\<rparr>)\<lparr>aiderProcess := True\<rparr>"

section \<open>Streaming: theorems\<close>

lemma stream_events_append:
  "stream_events p cur (xs @ ys) =
     (let (c1, o1) = stream_events p cur xs; (c2, o2) = stream_events p c1 ys in (c2, o1 @ o2))"
  by (induction xs arbitrary: cur) (auto split: prod.splits)

lemma stream_deltas:
  "stream_events p (Some \<lparr>tc_name = n, tc_input = acc\<rparr>) (map tool_argument_delta ds) =
     (Some \<lparr>tc_name = n, tc_input = acc @ concat ds\<rparr>, [])"
  by (induction ds arbitrary: acc) (auto simp: stream_event_def tool_argument_delta_def)

lemma stream_tool_block:
  "stream_events p cur (tool_block_start n # map tool_argument_delta ds @ [tool_block_stop]) =
     (None, [call_fragment n (case p (concat ds) of None \<Rightarrow> JObj [] | Some v \<Rightarrow> v)])"
proof -
  have start: "stream_event p cur (tool_block_start n) = (Some \<lparr>tc_name = n, tc_input = []\<rparr>, [])"
    by (simp add: stream_event_def tool_block_start_def)
  have stop: "stream_event p (Some \<lparr>tc_name = n, tc_input = concat ds\<rparr>) tool_block_stop =
      (None, [call_fragment n (case p (concat ds) of None \<Rightarrow> JObj [] | Some v \<Rightarrow> v)])"
    by (simp add: stream_event_def tool_block_stop_def)
  show ?thesis
    using stream_deltas [of p n "[]" ds]
    by (simp add: start stop stream_events_append)
qed

lemma stream_unterminated_block:
  "stream_events p cur (tool_block_start n # map tool_argument_delta ds) =
     (Some \<lparr>tc_name = n, tc_input = concat ds\<rparr>, [])"
proof -
  have start: "stream_event p cur (tool_block_start n) = (Some \<lparr>tc_name = n, tc_input = []\<rparr>, [])"
    by (simp add: stream_event_def tool_block_start_def)
  show ?thesis
    using stream_deltas [of p n "[]" ds] by (simp add: start)
qed

lemma invocation_fragments_call [simp]:
  "invocation_fragments [call_fragment n a] = [call_fragment n a]"
  by (simp add: invocation_fragments_def response_calls_def call_fragment_def)

text \<open>
  C6. Fed tool-block-start(\<open>f\<close>), tool-argument-delta(\<open>{"a":1}\<close>), tool-block-stop, the
  stream yields exactly one fragment, the invocation of \<open>f\<close> with the decoded arguments
  \<open>{a: 1}\<close>; fed the same events without the final stop it yields no fragment at all,
  hence no invocation; and when the message stops there, the only fragment is the final
  one, which holds no invocation.
\<close>

theorem streaming_complete_versus_unterminated:
  assumes \<open>json_parse ''{"a":1}'' = Some (JObj [(''a'', JNum 1)])\<close>
  shows \<open>generateContentStream json_parse
           \<lparr>hs_ok = True, hs_status = st, hs_error_text = body,
            hs_events = Some [tool_block_start ''f'', tool_argument_delta ''{"a":1}'', tool_block_stop]\<rparr>
         = Inr [call_fragment ''f'' (JObj [(''a'', JNum 1)])]
       \<and> map response_calls [call_fragment ''f'' (JObj [(''a'', JNum 1)])]
           = [[\<lparr>fc_name = ''f'', fc_args = JObj [(''a'', JNum 1)]\<rparr>]]
       \<and> generateContentStream json_parse
           \<lparr>hs_ok = True, hs_status = st, hs_error_text = body,
            hs_events = Some [tool_block_start ''f'', tool_argument_delta ''{"a":1}'']\<rparr>
         = Inr []
       \<and> generateContentStream json_parse
           \<lparr>hs_ok = True, hs_status = st, hs_error_text = body,
            hs_events = Some [tool_block_start ''f'', tool_argument_delta ''{"a":1}'', message_stop u]\<rparr>
         = Inr [stop_fragment u]
       \<and> invocation_fragments [stop_fragment u] = []\<close>
proof -
  have a: \<open>stream_events json_parse None
             [tool_block_start ''f'', tool_argument_delta ''{"a":1}'', tool_block_stop]
           = (None, [call_fragment ''f'' (JObj [(''a'', JNum 1)])])\<close>
    using stream_tool_block [of json_parse None "''f''" \<open>[''{"a":1}'']\<close>] assms by simp
  have b: \<open>stream_events json_parse None [tool_block_start ''f'', tool_argument_delta ''{"a":1}'']
           = (Some \<lparr>tc_name = ''f'', tc_input = ''{"a":1}''\<rparr>, [])\<close>
    using stream_unterminated_block [of json_parse None "''f''" \<open>[''{"a":1}'']\<close>] by simp
  have c: \<open>response_calls (call_fragment ''f'' (JObj [(''a'', JNum 1)]))
           = [\<lparr>fc_name = ''f'', fc_args = JObj [(''a'', JNum 1)]\<rparr>]\<close>
    by (simp add: response_calls_def call_fragment_def)
  have d: \<open>stream_events json_parse None
             ([tool_block_start ''f'', tool_argument_delta ''{"a":1}''] @ [message_stop u])
           = (Some \<lparr>tc_name = ''f'', tc_input = ''{"a":1}''\<rparr>, [stop_fragment u])\<close>
    unfolding stream_events_append b by (simp add: stream_event_def message_stop_def)
  have e: "invocation_fragments [stop_fragment u] = []"
    by (simp add: invocation_fragments_def response_calls_def stop_fragment_def)
  show ?thesis
    using d by (simp add: generateContentStream_def a b c e del: stream_events.simps)
qed

theorem streaming_complete_versus_unterminated_witness:
  \<open>example_parse ''{"a":1}'' = Some (JObj [(''a'', JNum 1)])
   \<and> generateContentStream example_parse
        \<lparr>hs_ok = True, hs_status = 200, hs_error_text = [],
         hs_events = Some [tool_block_start ''f'', tool_argument_delta ''{"a":1}'', tool_block_stop]\<rparr>
      = Inr [call_fragment ''f'' (JObj [(''a'', JNum 1)])]
   \<and> generateContentStream example_parse
        \<lparr>hs_ok = True, hs_status = 200, hs_error_text = [],
         hs_events = Some [tool_block_start ''f'', tool_argument_delta ''{"a":1}'']\<rparr>
      = Inr []
   \<and> generateContentStream example_parse
        \<lparr>hs_ok = True, hs_status = 200, hs_error_text = [],
         hs_events = Some [tool_block_start ''f'', tool_argument_delta ''{"a":1}'', message_stop None]\<rparr>
      = Inr [stop_fragment None]\<close>
proof -
  have h: \<open>example_parse ''{"a":1}'' = Some (JObj [(''a'', JNum 1)])\<close>
    by (simp add: example_parse_def)
  show ?thesis
    using streaming_complete_versus_unterminated [of example_parse 200 "[]" None] h
    by simp
qed

text \<open>
  C7. When the accumulated argument text of the pending tool call does not decode, any
  stop event yields exactly one fragment and clears the pending call: the fragment holds
  one part, the invocation of that tool, named \<open>n\<close>, with the empty object \<open>{}\<close> as its
  arguments. So a tool block (start, argument deltas, stop) whose text does not decode
  yields that one invocation fragment, and the stream as a whole returns its fragments
  (\<open>Inr\<close>), never an error, whatever comes before or after the block.
\<close>

theorem malformed_arguments_degrade_locally:
  assumes "json_parse (concat ds) = None"
  shows "(ev_type ev = ''content_block_stop'' \<longrightarrow>
            stream_event json_parse (Some \<lparr>tc_name = n, tc_input = concat ds\<rparr>) ev
              = (None,
                 [\<lparr>resp_text = [],
                   candidates =
                     [\<lparr>cand_role = ''model'',
                       cand_parts = [FunctionCallPart \<lparr>fc_name = n, fc_args = JObj []\<rparr>],
                       finishReason = None\<rparr>],
                   resp_usageMetadata = None\<rparr>]))
       \<and> stream_events json_parse cur
           (tool_block_start n # map tool_argument_delta ds @ [tool_block_stop])
         = (None,
            [\<lparr>resp_text = [],
              candidates =
                [\<lparr>cand_role = ''model'',
                  cand_parts = [FunctionCallPart \<lparr>fc_name = n, fc_args = JObj []\<rparr>],
                  finishReason = None\<rparr>],
              resp_usageMetadata = None\<rparr>])
       \<and> map response_calls
             (snd (stream_events json_parse cur
                     (tool_block_start n # map tool_argument_delta ds @ [tool_block_stop])))
           = [[\<lparr>fc_name = n, fc_args = JObj []\<rparr>]]
       \<and> length (invocation_fragments
             (snd (stream_events json_parse cur
                     (tool_block_start n # map tool_argument_delta ds @ [tool_block_stop])))) = 1
       \<and> generateContentStream json_parse
           \<lparr>hs_ok = True, hs_status = st, hs_error_text = body,
            hs_events = Some (pre @ (tool_block_start n # map tool_argument_delta ds @ [tool_block_stop])
                              @ post)\<rparr>
         = Inr (snd (stream_events json_parse None pre)
                @ [\<lparr>resp_text = [],
                    candidates =
                      [\<lparr>cand_role = ''model'',
                        cand_parts = [FunctionCallPart \<lparr>fc_name = n, fc_args = JObj []\<rparr>],
                        finishReason = None\<rparr>],
                    resp_usageMetadata = None\<rparr>]
                @ snd (stream_events json_parse None post))"
proof -
  let ?block = "tool_block_start n # map tool_argument_delta ds @ [tool_block_stop]"
  let ?frag = "\<lparr>resp_text = [],
                candidates =
                  [\<lparr>cand_role = ''model'',
                    cand_parts = [FunctionCallPart \<lparr>fc_name = n, fc_args = JObj []\<rparr>],
                    finishReason = None\<rparr>],
                resp_usageMetadata = None\<rparr>"
  have frag: "call_fragment n (JObj []) = ?frag"
    by (simp add: call_fragment_def)
  have one: "ev_type ev = ''content_block_stop'' \<longrightarrow>
            stream_event json_parse (Some \<lparr>tc_name = n, tc_input = concat ds\<rparr>) ev
              = (None, [?frag])"
    using assms by (simp add: stream_event_def call_fragment_def)
  have blk: "\<And>c. stream_events json_parse c ?block = (None, [?frag])"
    using stream_tool_block [of json_parse _ n ds] assms by (simp add: frag)
  have calls: "map response_calls [?frag] = [[\<lparr>fc_name = n, fc_args = JObj []\<rparr>]]"
    by (simp add: response_calls_def)
  have inv: "length (invocation_fragments [?frag]) = 1"
    by (simp add: invocation_fragments_def response_calls_def)
  have all: "snd (stream_events json_parse None (pre @ ?block @ post)) =
        snd (stream_events json_parse None pre) @ [?frag]
          @ snd (stream_events json_parse None post)"
    by (simp only: stream_events_append blk Let_def split: prod.splits) simp
  have gen: "generateContentStream json_parse
           \<lparr>hs_ok = True, hs_status = st, hs_error_text = body,
            hs_events = Some (pre @ ?block @ post)\<rparr>
         = Inr (snd (stream_events json_parse None pre) @ [?frag]
                @ snd (stream_events json_parse None post))"
    using all by (simp add: generateContentStream_def del: stream_events.simps)
  show ?thesis
    unfolding blk snd_conv
    using one calls inv gen by (intro conjI refl) assumption+
qed

theorem malformed_arguments_degrade_locally_witness:
  \<open>example_parse (concat [''{"a"'', '':'']) = None
   \<and> stream_event example_parse (Some \<lparr>tc_name = ''f'', tc_input = concat [''{"a"'', '':'']\<rparr>)
        tool_block_stop
      = (None,
         [\<lparr>resp_text = [],
           candidates =
             [\<lparr>cand_role = ''model'',
               cand_parts = [FunctionCallPart \<lparr>fc_name = ''f'', fc_args = JObj []\<rparr>],
               finishReason = None\<rparr>],
           resp_usageMetadata = None\<rparr>])
   \<and> map response_calls
         (snd (stream_events example_parse None
                 [tool_block_start ''f'', tool_argument_delta ''{"a"'',
                  tool_argument_delta '':'', tool_block_stop]))
       = [[\<lparr>fc_name = ''f'', fc_args = JObj []\<rparr>]]
   \<and> generateContentStream example_parse
        \<lparr>hs_ok = True, hs_status = 200, hs_error_text = [],
         hs_events = Some [tool_block_start ''f'', tool_argument_delta ''{"a"'',
                            tool_argument_delta '':'', tool_block_stop]\<rparr>
      = Inr [\<lparr>resp_text = [],
              candidates =
                [\<lparr>cand_role = ''model'',
                  cand_parts = [FunctionCallPart \<lparr>fc_name = ''f'', fc_args = JObj []\<rparr>],
                  finishReason = None\<rparr>],
              resp_usageMetadata = None\<rparr>]\<close>
proof -
  have h: \<open>example_parse (concat [''{"a"'', '':'']) = None\<close>
    by (simp add: example_parse_def)
  have t: "ev_type tool_block_stop = ''content_block_stop''"
    by (simp add: tool_block_stop_def)
  have e: "stream_events example_parse None [] = (None, [])"
    by simp
  show ?thesis
    using malformed_arguments_degrade_locally
            [of example_parse \<open>[''{"a"'', '':'']\<close> tool_block_stop "''f''" None 200 "[]" "[]" "[]"] h t
    by (simp add: e response_calls_def del: stream_events.simps)
qed

section \<open>Usage counters: theorems\<close>

text \<open>
  C9. When the call succeeds and the backend supplies both counts, the usage metadata
  returned carries them, and the total is their sum. The counts are natural numbers
  whose sum is a safe integer (below \<open>2 ^ 53\<close>), where the addition of JavaScript
  numbers is the addition of integers.
\<close>

theorem usage_total_is_sum:
  assumes "hr_ok r" and "usage (hr_data r) = Some u"
    and "input_tokens u = Num a" and "output_tokens u = Num b"
    and "0 \<le> a" and "0 \<le> b" and "a + b < 2 ^ 53"
  shows "\<exists>resp. generateContent json_parse r = Inr resp \<and>
           resp_usageMetadata resp =
             Some \<lparr>promptTokenCount = Num a, candidatesTokenCount = Num b,
                   totalTokenCount = Num (a + b)\<rparr>"
  using assms by (simp add: generateContent_def Let_def split: prod.splits)

theorem usage_total_is_sum_witness:
  "\<exists>resp. generateContent example_parse
             \<lparr>hr_ok = True, hr_status = 200, hr_error_text = [],
              hr_data = \<lparr>content = ContentArray [], stop_reason = Some ''end_turn'',
                         usage = Some \<lparr>input_tokens = Num 12, output_tokens = Num 30\<rparr>\<rparr>\<rparr>
           = Inr resp
         \<and> resp_usageMetadata resp =
             Some \<lparr>promptTokenCount = Num 12, candidatesTokenCount = Num 30,
                   totalTokenCount = Num 42\<rparr>"
  using usage_total_is_sum
          [of "\<lparr>hr_ok = True, hr_status = 200, hr_error_text = [],
                hr_data = \<lparr>content = ContentArray [], stop_reason = Some ''end_turn'',
                           usage = Some \<lparr>input_tokens = Num 12, output_tokens = Num 30\<rparr>\<rparr>\<rparr>"
              "\<lparr>input_tokens = Num 12, output_tokens = Num 30\<rparr>" 12 30 example_parse]
  by simp

section \<open>The router: theorems\<close>








section \<open>The Aider service: theorems\<close>

lemma getAiderService_again:
  "aiderService m = Some r \<Longrightarrow>
   getAiderService_calls cfgs m = (replicate (length cfgs) r, m)"
  by (induction cfgs) (auto simp: getAiderService_def)

lemma rejectQueued_result:
  "rejectQueued err s =
     s\<lparr>commandQueue := [],
       settled := settled s @ map (\<lambda>c. RejectCalled (cmd_ref c) err) (commandQueue s)\<rparr>"
proof (induction err s rule: rejectQueued.induct)
  case (1 err s)
  show ?case
  proof (cases "commandQueue s")
    case Nil
    then show ?thesis by (subst rejectQueued.simps) simp
  next
    case (Cons c rest)
    then show ?thesis
      using "1.IH" [OF Cons]
      by (subst rejectQueued.simps) (simp add: call_reject_def)
  qed
qed

lemma on_close_result:
  "on_close s =
     s\<lparr>aiderProcess := False, commandQueue := [], currentCommand := None,
       settled := settled s
          @ map (\<lambda>c. RejectCalled (cmd_ref c) ''Aider process terminated'') (pending s)\<rparr>"
  by (cases "currentCommand s")
     (simp_all add: on_close_def rejectAllPending_def rejectQueued_result pending_def call_reject_def)

lemma config_processNextCommand [simp]: "config (processNextCommand s) = config s"
  by (auto simp: processNextCommand_def Let_def split: list.splits)

lemma config_completeCurrentCommand [simp]: "config (completeCurrentCommand s) = config s"
  by (auto simp: completeCurrentCommand_def call_resolve_def Let_def split: option.splits)

lemma config_step: "config (step ev s) = config s"
  by (cases ev)
     (auto simp: execute_enqueue_def updateRepoMap_def handleOutput_def timeout_fires_def
        on_close_result Let_def split: list.splits)

lemma config_run: "config (run evs s) = config s"
  unfolding run_def by (induction evs arbitrary: s) (auto simp: config_step)

text \<open>
  C10. The first call of \<open>getAiderService\<close> constructs the service with the
  configuration it is given and registers the exit handler. Once the variable is set,
  a call with any configuration returns the reference it holds and changes nothing:
  no service is constructed, and the configuration passed is stored nowhere. So every
  call of a sequence returns the same reference. No callback of the service changes its
  configuration, and the subprocess it spawns runs in the target directory of that
  configuration, the first caller's.
\<close>

theorem singleton_bound_to_first_config:
  "getAiderService cfg initial_module =
     (0, \<lparr>aiderService = Some 0, services = [new_AiderService cfg], exit_listeners = 1\<rparr>)
   \<and> (aiderService m = Some r \<longrightarrow> getAiderService cfg' m = (r, m))
   \<and> getAiderService_calls (cfg # cfgs) initial_module =
       (replicate (Suc (length cfgs)) 0,
        \<lparr>aiderService = Some 0, services = [new_AiderService cfg], exit_listeners = 1\<rparr>)
   \<and> config (run evs (new_AiderService cfg)) = cfg
   \<and> (\<not> aiderProcess s \<longrightarrow>
        spawned (start_spawn e s) =
          spawned s @ [\<lparr>sp_args = sp_args (last (spawned (start_spawn e s))),
                        sp_cwd = targetDir (config s)\<rparr>])"
  using getAiderService_again
          [of "\<lparr>aiderService = Some 0, services = [new_AiderService cfg], exit_listeners = 1\<rparr>" 0 cfgs]
        config_run [of evs "new_AiderService cfg"]
  by (simp add: getAiderService_def initial_module_def start_spawn_def Let_def)
     (simp add: new_AiderService_def)

theorem singleton_bound_to_first_config_witness:
  "getAiderService \<lparr>targetDir = ''/other''\<rparr>
     \<lparr>aiderService = Some 0, services = [new_AiderService \<lparr>targetDir = ''/repo''\<rparr>], exit_listeners = 1\<rparr>
   = (0, \<lparr>aiderService = Some 0, services = [new_AiderService \<lparr>targetDir = ''/repo''\<rparr>],
          exit_listeners = 1\<rparr>)
   \<and> map sp_cwd (spawned (start_spawn Map.empty (new_AiderService \<lparr>targetDir = ''/repo''\<rparr>)))
       = [''/repo'']"
proof -
  have a: "aiderService \<lparr>aiderService = Some 0,
             services = [new_AiderService \<lparr>targetDir = ''/repo''\<rparr>], exit_listeners = 1\<rparr> = Some 0"
    by simp
  have b: "\<not> aiderProcess (new_AiderService \<lparr>targetDir = ''/repo''\<rparr>)"
    "spawned (new_AiderService \<lparr>targetDir = ''/repo''\<rparr>) = []"
    "config (new_AiderService \<lparr>targetDir = ''/repo''\<rparr>) = \<lparr>targetDir = ''/repo''\<rparr>"
    by (simp_all add: new_AiderService_def)
  from singleton_bound_to_first_config
         [of "\<lparr>targetDir = ''/repo''\<rparr>"
             "\<lparr>aiderService = Some 0, services = [new_AiderService \<lparr>targetDir = ''/repo''\<rparr>],
               exit_listeners = 1\<rparr>"
             0 "\<lparr>targetDir = ''/other''\<rparr>" "[]" "[]"
             "new_AiderService \<lparr>targetDir = ''/repo''\<rparr>" Map.empty]
  have c: "getAiderService \<lparr>targetDir = ''/other''\<rparr>
     \<lparr>aiderService = Some 0, services = [new_AiderService \<lparr>targetDir = ''/repo''\<rparr>], exit_listeners = 1\<rparr>
   = (0, \<lparr>aiderService = Some 0, services = [new_AiderService \<lparr>targetDir = ''/repo''\<rparr>],
          exit_listeners = 1\<rparr>)"
    and d: "spawned (start_spawn Map.empty (new_AiderService \<lparr>targetDir = ''/repo''\<rparr>)) =
          spawned (new_AiderService \<lparr>targetDir = ''/repo''\<rparr>)
          @ [\<lparr>sp_args = sp_args (last (spawned (start_spawn Map.empty (new_AiderService \<lparr>targetDir = ''/repo''\<rparr>)))),
               sp_cwd = targetDir (config (new_AiderService \<lparr>targetDir = ''/repo''\<rparr>))\<rparr>]"
    using a b(1) by simp_all
  have "map sp_cwd (spawned (start_spawn Map.empty (new_AiderService \<lparr>targetDir = ''/repo''\<rparr>)))
       = [''/repo'']"
    by (subst d) (simp add: b)
  with c show ?thesis by simp
qed

text \<open>
  C8. When the subprocess exits, the command in flight and every queued command have
  their \<open>reject\<close> called, in that order, each with the same error \<open>Aider process
  terminated\<close>; the queue is empty and no command is in flight afterwards. No \<open>resolve\<close>
  is called and no other field changes, so no result is made up (the repo map cache
  included); a timer that fires or output that arrives after the exit settles nothing.
\<close>

theorem subprocess_exit_rejects_all:
  "on_close s =
     s\<lparr>aiderProcess := False, commandQueue := [], currentCommand := None,
       settled := settled s
          @ map (\<lambda>c. RejectCalled (cmd_ref c) ''Aider process terminated'') (pending s)\<rparr>
   \<and> pending (on_close s) = []
   \<and> settled (step Timeout (on_close s)) = settled (on_close s)
   \<and> settled (step (Stdout d) (on_close s)) = settled (on_close s)"
  by (simp add: on_close_result pending_def timeout_fires_def handleOutput_def
        completeCurrentCommand_def Let_def split: list.splits)

text \<open>
  Whatever happens to a service, no command has its \<open>resolve\<close> or \<open>reject\<close> called
  twice: a command leaves \<open>currentCommand\<close> or the queue when it is settled.
\<close>

lemma pending_processNextCommand [simp]: "pending (processNextCommand s) = pending s"
  by (auto simp: processNextCommand_def pending_def Let_def split: list.splits)

lemma settled_processNextCommand [simp]: "settled (processNextCommand s) = settled s"
  by (auto simp: processNextCommand_def Let_def split: list.splits)

lemma next_ref_processNextCommand [simp]: "next_ref (processNextCommand s) = next_ref s"
  by (auto simp: processNextCommand_def Let_def split: list.splits)

lemma refs_ok_processNextCommand: "refs_ok (processNextCommand s) = refs_ok s"
  by (simp add: refs_ok_def)

lemma refs_ok_complete:
  assumes "refs_ok s"
  shows "refs_ok (completeCurrentCommand s)"
proof (cases "currentCommand s")
  case None
  with assms show ?thesis by (simp add: completeCurrentCommand_def)
next
  case (Some c)
  have "refs_ok ((call_resolve c (cleanOutput (outputBuffer s)) s)
                   \<lparr>currentCommand := None, outputBuffer := []\<rparr>)"
    using assms Some by (auto simp: refs_ok_def pending_def call_resolve_def Let_def)
  then show ?thesis
    by (simp add: completeCurrentCommand_def Some refs_ok_processNextCommand)
qed

lemma refs_ok_timers: "refs_ok (s\<lparr>timers := ts\<rparr>) = refs_ok s"
  by (simp add: refs_ok_def pending_def)

lemma refs_ok_buffer: "refs_ok (s\<lparr>outputBuffer := b\<rparr>) = refs_ok s"
  by (simp add: refs_ok_def pending_def)

lemma refs_ok_step: "refs_ok s \<Longrightarrow> refs_ok (step ev s)"
proof (cases ev)
  case (Execute rid instr fs)
  assume "refs_ok s"
  then show ?thesis
    by (auto simp: Execute execute_enqueue_def refs_ok_processNextCommand)
       (fastforce simp: refs_ok_def pending_def list_all_iff intro: less_SucI)+
next
  case UpdateRepoMap
  assume "refs_ok s"
  then show ?thesis
    by (auto simp: UpdateRepoMap updateRepoMap_def refs_ok_processNextCommand)
       (fastforce simp: refs_ok_def pending_def list_all_iff intro: less_SucI)+
next
  case (Stdout d)
  assume "refs_ok s"
  then show ?thesis
    by (auto simp: Stdout handleOutput_def Let_def refs_ok_buffer intro!: refs_ok_complete)
next
  case Timeout
  assume "refs_ok s"
  then show ?thesis
    by (auto simp: Timeout timeout_fires_def Let_def refs_ok_timers intro!: refs_ok_complete split: list.splits)
next
  case Close
  assume "refs_ok s"
  then show ?thesis
    by (auto simp: Close on_close_result refs_ok_def pending_def list_all_iff comp_def)
next
  case (Tick n)
  assume "refs_ok s"
  then show ?thesis by (simp add: Tick refs_ok_def pending_def)
qed

lemma refs_ok_run: "refs_ok s \<Longrightarrow> refs_ok (run evs s)"
  unfolding run_def by (induction evs arbitrary: s) (auto intro: refs_ok_step)

lemma settled_at_most_once:
  "distinct (map settled_ref (settled (run evs (new_AiderService cfg))))"
proof -
  have "refs_ok (new_AiderService cfg)"
    by (simp add: refs_ok_def new_AiderService_def pending_def)
  then have "refs_ok (run evs (new_AiderService cfg))" by (rule refs_ok_run)
  then show ?thesis by (simp add: refs_ok_def)
qed

text \<open>
  C3. Command 0 is dispatched (its timer armed), completes on the prompt; command 1 is
  dispatched next (a second timer armed). When the first timer fires, command 1 is in
  flight, and the timer calls its \<open>resolve\<close>, with the empty output collected so far:
  the timer armed for command 0 settles command 1. (By \<open>settled_at_most_once\<close>, each
  command is still settled once at most.)
\<close>

theorem timer_of_completed_command_settles_next:
  \<open>let s3 = run [Execute ''a1'' ''fix A'' None,
                 Stdout (''done'' @ [CHR 0x0A] @ ''> ''),
                 Execute ''b2'' ''fix B'' None] running_service
   in timers s3 = [0, 1]
      \<and> map_option cmd_ref (currentCommand s3) = Some 1
      \<and> settled s3 = [ResolveCalled 0 ''done'']
      \<and> settled (step Timeout s3) = [ResolveCalled 0 ''done'', ResolveCalled 1 []]
      \<and> timers (step Timeout s3) = [1]\<close>
  by code_simp

section \<open>The tool-call parser: theorems\<close>

lemma remove_no_block:
  "match_block ''<function_result>'' ''</function_result>'' s = None \<Longrightarrow> remove_function_results s = s"
  by (subst remove_function_results.simps) simp

lemma remove_length_le: "length (remove_function_results s) \<le> length s"
proof (induction s rule: remove_function_results.induct)
  case (1 s)
  show ?case
  proof (cases "match_block ''<function_result>'' ''</function_result>'' s")
    case None
    then show ?thesis by (simp add: remove_no_block)
  next
    case (Some m)
    let ?e = "block_end ''<function_result>'' ''</function_result>'' m"
    have "fst m \<le> ?e" by (simp add: block_end_def)
    moreover have "length (remove_function_results (drop ?e s)) \<le> length s - ?e"
      using "1.IH" [OF Some] by simp
    ultimately show ?thesis
      by (subst remove_function_results.simps) (simp add: Some)
  qed
qed

lemma remove_block_shorter:
  assumes "match_block ''<function_result>'' ''</function_result>'' s = Some m"
  shows "length (remove_function_results s) < length s"
proof -
  let ?e = "block_end ''<function_result>'' ''</function_result>'' m"
  from assms obtain i where i: "indexOf s ''<function_result>'' = Some i" and m: "fst m = i"
    by (auto simp: match_block_def split: option.splits)
  from indexOf_bound [OF i] have "i < length s" by simp
  moreover have "i < ?e" using m by (simp add: block_end_def)
  moreover have "length (remove_function_results (drop ?e s)) \<le> length s - ?e"
    using remove_length_le [of "drop ?e s"] by simp
  ultimately show ?thesis
    using m by (subst remove_function_results.simps) (simp add: assms)
qed

lemma remove_fixed_iff:
  "remove_function_results s = s \<longleftrightarrow>
   match_block ''<function_result>'' ''</function_result>'' s = None"
proof
  assume eq: "remove_function_results s = s"
  show "match_block ''<function_result>'' ''</function_result>'' s = None"
  proof (rule ccontr)
    assume "match_block ''<function_result>'' ''</function_result>'' s \<noteq> None"
    then obtain m where "match_block ''<function_result>'' ''</function_result>'' s = Some m"
      by auto
    from remove_block_shorter [OF this] eq show False by simp
  qed
qed (rule remove_no_block)

text \<open>
  C4, as stated, fails: deleting a block can join the text around it into a new block,
  which a second pass deletes.
\<close>

theorem removal_not_idempotent:
  \<open>remove_function_results
     (remove_function_results
        ''<function_<function_result></function_result>result>x</function_result>'')
   \<noteq> remove_function_results
        ''<function_<function_result></function_result>result>x</function_result>''\<close>
  by code_simp

text \<open>
  C4, amended. Removing twice gives the same text as removing once exactly when the
  text left by the first pass holds no complete block, that is no
  \<open><function_result>\<close> with a \<open></function_result>\<close> behind it.
\<close>

theorem removal_idempotent_iff:
  "remove_function_results (remove_function_results s) = remove_function_results s \<longleftrightarrow>
   match_block ''<function_result>'' ''</function_result>'' (remove_function_results s) = None"
  by (rule remove_fixed_iff)

text \<open>
  What the overlap test does ensure, for every text: a shorthand candidate that is
  accepted neither starts inside an explicit span nor ends inside one. It is apart from
  every explicit span, or it strictly contains it.
\<close>

lemma overlaps_mono: "set tcs0 \<subseteq> set tcs \<Longrightarrow> overlaps tcs0 a b \<Longrightarrow> overlaps tcs a b"
  by (auto simp: overlaps_def list_ex_iff)

lemma scan_direct_new:
  assumes "x \<in> set (scan_direct off s tcs)" and "set tcs0 \<subseteq> set tcs"
  shows "x \<in> set tcs \<or>
         (\<not> overlaps tcs0 (call_start x) (call_end x) \<and> call_start x < call_end x)"
  using assms
proof (induction off s tcs rule: scan_direct.induct)
  case (1 off tcs)
  then show ?case by simp
next
  case (2 off c cs tcs)
  show ?case
  proof (cases "match_direct_at (c # cs)")
    case None
    with "2.prems" have "x \<in> set (scan_direct (Suc off) cs tcs)" by simp
    from "2.IH"(1) [OF None this "2.prems"(2)] show ?thesis .
  next
    case (Some m)
    obtain nm ps len where m: "m = (nm, ps, len)" by (cases m)
    let ?new = "\<lparr>call_name = nm, call_params = ps, call_start = off, call_end = off + len\<rparr>"
    let ?tcs = "if \<not> overlaps tcs off (off + len) then tcs @ [?new] else tcs"
    from Some m have len: "0 < len" by (auto dest: match_direct_at_pos)
    from "2.prems"(1) Some m have x: "x \<in> set (scan_direct (off + len) (drop len (c # cs)) ?tcs)"
      by simp
    have sub: "set tcs0 \<subseteq> set ?tcs" using "2.prems"(2) by auto
    from "2.IH"(2) [OF Some m [symmetric] refl x sub]
    have "x \<in> set ?tcs \<or>
          (\<not> overlaps tcs0 (call_start x) (call_end x) \<and> call_start x < call_end x)" .
    then show ?thesis
    proof
      assume "x \<in> set ?tcs"
      then consider "x \<in> set tcs" | "x = ?new" "\<not> overlaps tcs off (off + len)"
        by (auto split: if_splits)
      then show ?thesis
      proof cases
        case 1
        then show ?thesis by simp
      next
        case 2
        from 2(2) "2.prems"(2) have "\<not> overlaps tcs0 off (off + len)"
          using overlaps_mono by blast
        with 2(1) len show ?thesis by simp
      qed
    qed simp
  qed
qed

lemma scan_invoke_span: "e \<in> set (scan_invoke off s) \<Longrightarrow> call_start e < call_end e"
proof (induction off s rule: scan_invoke.induct)
  case (1 off)
  then show ?case by simp
next
  case (2 off c cs)
  show ?case
  proof (cases "match_invoke_at (c # cs)")
    case None
    with "2.prems" "2.IH"(1) show ?thesis by simp
  next
    case (Some m)
    obtain nm ps len where m: "m = (nm, ps, len)" by (cases m)
    from Some m have len: "0 < len" by (auto dest: match_invoke_at_pos)
    from "2.prems" Some m
    consider "e = \<lparr>call_name = nm, call_params = ps, call_start = off, call_end = off + len\<rparr>"
      | "e \<in> set (scan_invoke (off + len) (drop len (c # cs)))"
      by auto
    then show ?thesis
    proof cases
      case 1
      with len show ?thesis by simp
    next
      case 2
      from "2.IH"(2) [OF Some m [symmetric] refl 2] show ?thesis .
    qed
  qed
qed

lemma shorthand_clear_of_invoke_ends:
  assumes x: "x \<in> set (accepted_calls txt)" and e: "e \<in> set (scan_invoke 0 txt)"
  shows "x \<in> set (scan_invoke 0 txt)
       \<or> call_end x \<le> call_start e
       \<or> call_end e \<le> call_start x
       \<or> (call_start x < call_start e \<and> call_end e < call_end x)"
proof -
  from x have "x \<in> set (scan_direct 0 txt (scan_invoke 0 txt))" by (simp add: accepted_calls_def)
  from scan_direct_new [OF this subset_refl]
  show ?thesis
  proof
    assume "\<not> overlaps (scan_invoke 0 txt) (call_start x) (call_end x) \<and> call_start x < call_end x"
    then have a: "\<not> (call_start e \<le> call_start x \<and> call_start x < call_end e)"
      and b: "\<not> (call_start e < call_end x \<and> call_end x \<le> call_end e)"
      and c: "call_start x < call_end x"
      using e by (auto simp: overlaps_def list_ex_iff)
    from scan_invoke_span [OF e] a b c show ?thesis by linarith
  qed simp
qed

text \<open>
  C2. In \<open><foo><invoke name="x"></invoke></foo>\<close> the first loop accepts the explicit
  call from 5 to 31. The shorthand match \<open>foo\<close> runs from 0 to 37 and contains it; neither
  its start nor its end lies inside 5 to 31, so the overlap test lets it through: both
  candidates are accepted, and two invocations are emitted. This is the one way an
  accepted shorthand span can overlap an explicit one (\<open>shorthand_clear_of_invoke_ends\<close>).
\<close>

theorem shorthand_around_invoke_is_accepted:
  \<open>map (\<lambda>tc. (call_name tc, call_start tc, call_end tc))
     (accepted_calls (prepare_text ''<foo><invoke name="x"></invoke></foo>''))
     = [(''x'', 5, 31), (''foo'', 0, 37)]
   \<and> map fc_name (functionCalls
         (parseAnthropicToolCalls json_parse ''<foo><invoke name="x"></invoke></foo>''))
     = [''foo'', ''x'']\<close>
  by code_simp


lemma js_space_simps [simp]: "js_space (CHR '' '')" "\<not> js_space (CHR ''n'')"
  by (simp_all add: js_space_def)

lemma trim_Nil [simp]: "trim [] = []"
  by (simp add: trim_def)








lemma part_calls_map [simp]: "part_calls (map FunctionCallPart fcs) = fcs"
  by (induction fcs) auto

























end
